theory Spec2Isabelle
  imports Main
begin

section \<open>The element tree of \<^verbatim>\<open>src/novafi/src/App.js\<close>\<close>

text \<open>
  \<^verbatim>\<open>App.js\<close> imports six components and returns one fragment: the element
  \<^verbatim>\<open><NavBar />\<close> followed by a \<^verbatim>\<open><Routes>\<close> element whose children are five
  \<^verbatim>\<open><Route path=... element=... />\<close> bindings. No component takes a prop, so an
  element is its component.
\<close>

datatype component = NavBar | Home | Features | Pricing | Contact | Login

datatype route = Route (path: string) (element: component)

datatype jsx = Element component | Routes "route list"

text \<open>
  \<^verbatim>\<open>function App() { return (<> <NavBar /> <Routes> ... </Routes> </>); }\<close>
  The function takes no argument and reads no state: it is a constant, the list of the
  fragment's children in source order.
\<close>

definition App :: "jsx list" where
  "App =
    [Element NavBar,
     Routes
      [Route ''/'' Home,
       Route ''/features'' Features,
       Route ''/pricing'' Pricing,
       Route ''/contact'' Contact,
       Route ''/login'' Login]]"

text \<open>The route bindings a node declares, and the route table: those of the whole tree.\<close>

fun routes_of :: "jsx \<Rightarrow> route list" where
  "routes_of (Element c) = []"
| "routes_of (Routes rs) = rs"

definition routeTable :: "route list" where
  "routeTable = concat (map routes_of App)"

section \<open>Dispatch\<close>

text \<open>
  The router is a library (\<^verbatim>\<open>react-router-dom\<close>) and is not part of the sources, so
  the test "does this pattern match this URL path" is a parameter of the model: a
  \<open>matcher\<close> takes the pattern of a binding and the current path.
\<close>

type_synonym matcher = "string \<Rightarrow> string \<Rightarrow> bool"

text \<open>
  Modelled from the spec: the router's path matching, which the sources import and do not
  define. Section 3 of the specification gives it as exact-match semantics with no
  wildcard and no nested route: a literal pattern matches the path equal to it. Among
  the five defined paths this agrees with the library; outside them the library is more
  liberal (see \<open>router_match\<close> below).
\<close>

definition exact_match :: matcher where
  "exact_match pattern url = (pattern = url)"

text \<open>A matcher that is exact among a list of paths: each matches itself and no other.\<close>

definition exact_on :: "matcher \<Rightarrow> string list \<Rightarrow> bool" where
  "exact_on m ps = (\<forall>p \<in> set ps. \<forall>u \<in> set ps. m p u = (p = u))"

text \<open>A matcher that matches no two different patterns of a list to the path \<open>u\<close>.\<close>

definition unambiguous :: "matcher \<Rightarrow> string list \<Rightarrow> string \<Rightarrow> bool" where
  "unambiguous m ps u = (\<forall>p \<in> set ps. \<forall>q \<in> set ps. m p u \<and> m q u \<longrightarrow> p = q)"

text \<open>
  The matching of \<^verbatim>\<open>react-router-dom\<close> (version 6) for a literal pattern, one with no
  parameter and no wildcard, written from the behaviour of the library because its code
  is not part of the sources: the comparison ignores the case of ASCII letters and any
  trailing slashes, and the empty path counts as "/". The library also decodes percent
  escapes before it compares; that step is left out, so a match of this model is a
  match of the library, and not always the other way round.
\<close>

definition to_lower :: "char \<Rightarrow> char" where
  "to_lower c =
    (case map_of (zip ''ABCDEFGHIJKLMNOPQRSTUVWXYZ'' ''abcdefghijklmnopqrstuvwxyz'') c of
       None \<Rightarrow> c
     | Some d \<Rightarrow> d)"

definition strip_slashes :: "string \<Rightarrow> string" where
  "strip_slashes s = rev (dropWhile (\<lambda>c. c = CHR ''/'') (rev s))"

definition router_match :: matcher where
  "router_match pattern url =
    (map to_lower (strip_slashes pattern) = map to_lower (strip_slashes url))"

text \<open>
  What a \<^verbatim>\<open><Routes>\<close> element does with its children: the bindings whose pattern
  matches the current path, in table order, and the element of the first of them, or
  nothing (\<^verbatim>\<open>null\<close>) when there is none. How the library ranks several matching
  bindings is not modelled: the theorems below that depend on the selected page are
  about matchers under which at most one binding of the table matches.
\<close>

definition matching :: "matcher \<Rightarrow> string \<Rightarrow> route list \<Rightarrow> route list" where
  "matching m url rs = filter (\<lambda>r. m (path r) url) rs"

definition dispatch :: "matcher \<Rightarrow> string \<Rightarrow> route list \<Rightarrow> component option" where
  "dispatch m url rs = (case matching m url rs of [] \<Rightarrow> None | r # _ \<Rightarrow> Some (element r))"

text \<open>
  Rendering a tree at a URL: one slot per child of the fragment, holding the component
  shown there or \<open>None\<close> for an empty slot.
\<close>

fun render_node :: "matcher \<Rightarrow> string \<Rightarrow> jsx \<Rightarrow> component option" where
  "render_node m url (Element c) = Some c"
| "render_node m url (Routes rs) = dispatch m url rs"

definition render :: "matcher \<Rightarrow> string \<Rightarrow> jsx list \<Rightarrow> component option list" where
  "render m url t = map (render_node m url) t"

text \<open>The content region: the page components that the \<^verbatim>\<open><Routes>\<close> elements show.\<close>

fun content_node :: "matcher \<Rightarrow> string \<Rightarrow> jsx \<Rightarrow> component list" where
  "content_node m url (Element c) = []"
| "content_node m url (Routes rs) = (case dispatch m url rs of None \<Rightarrow> [] | Some c \<Rightarrow> [c])"

definition content :: "matcher \<Rightarrow> string \<Rightarrow> jsx list \<Rightarrow> component list" where
  "content m url t = concat (map (content_node m url) t)"

section \<open>Calls of \<^verbatim>\<open>App\<close>\<close>




section \<open>Mounting and navigation\<close>

text \<open>
  The running application: the current path, the element tree that \<^verbatim>\<open>App\<close> returned,
  the mounted instances slot by slot, and the number of commits so far. An instance
  records the commit that created it, so a component that is unmounted and mounted again
  is told apart from one that stayed.
\<close>

record mounted =
  kind :: component
  born :: nat

record view =
  location :: string
  tree :: "jsx list"
  screen :: "mounted option list"
  commits :: nat

text \<open>
  One slot at commit \<open>n\<close>, by the rule of the UI runtime (React, a library outside the
  sources) for a child at a fixed position: an instance stays when the new render puts
  the same component in its slot; otherwise the old one is unmounted and, if the render
  shows a component, a fresh instance is created.
\<close>

fun reconcile :: "nat \<Rightarrow> mounted option \<Rightarrow> component option \<Rightarrow> mounted option" where
  "reconcile n old None = None"
| "reconcile n None (Some c) = Some \<lparr>kind = c, born = n\<rparr>"
| "reconcile n (Some i) (Some c) = (if kind i = c then Some i else Some \<lparr>kind = c, born = n\<rparr>)"

definition mount :: "matcher \<Rightarrow> string \<Rightarrow> view" where
  "mount m url =
    \<lparr>location = url, tree = App,
     screen = map (reconcile 0 None) (render m url App), commits = 0\<rparr>"

text \<open>A URL change: the route table of the tree is consulted again; the tree is not rebuilt.\<close>

definition navigate :: "matcher \<Rightarrow> string \<Rightarrow> view \<Rightarrow> view" where
  "navigate m url v =
    v\<lparr>location := url,
      screen := map2 (reconcile (Suc (commits v))) (screen v) (render m url (tree v)),
      commits := Suc (commits v)\<rparr>"

fun run :: "matcher \<Rightarrow> view \<Rightarrow> string list \<Rightarrow> view" where
  "run m v [] = v"
| "run m v (u # us) = run m (navigate m u v) us"

text \<open>What a view shows: the component in each slot.\<close>

definition shown :: "view \<Rightarrow> component option list" where
  "shown v = map (map_option kind) (screen v)"

text \<open>The invariant of the views that mounting and navigation produce: the tree is the one
  \<^verbatim>\<open>App\<close> returned, the screen shows the render at the current path, and the first slot
  holds the navigation bar created by the first commit.\<close>

definition settled :: "matcher \<Rightarrow> view \<Rightarrow> bool" where
  "settled m v =
    (tree v = App \<and> shown v = render m (location v) App
     \<and> hd (screen v) = Some \<lparr>kind = NavBar, born = 0\<rparr>)"

section \<open>The route table\<close>

lemma routeTable_eq:
  "routeTable =
    [Route ''/'' Home, Route ''/features'' Features, Route ''/pricing'' Pricing,
     Route ''/contact'' Contact, Route ''/login'' Login]"
  by (simp add: routeTable_def App_def)

lemma paths_eq:
  "map path routeTable = [''/'', ''/features'', ''/pricing'', ''/contact'', ''/login'']"
  by (simp add: routeTable_eq)

lemma paths_distinct: "distinct (map path routeTable)"
  by (simp add: paths_eq)

text \<open>
  C2. The route table holds exactly five bindings; their paths are the literals
  "/", "/features", "/pricing", "/contact" and "/login", and no two are equal.
\<close>

theorem route_table_paths:
  "length routeTable = 5
   \<and> map path routeTable = [''/'', ''/features'', ''/pricing'', ''/contact'', ''/login'']
   \<and> distinct (map path routeTable)"
  by (simp add: routeTable_eq)

text \<open>
  C8. The five paths render five different pages: the components of the table are Home,
  Features, Pricing, Contact and Login in this order, pairwise distinct, and no
  component is bound by two bindings.
\<close>

theorem route_table_injective:
  "map element routeTable = [Home, Features, Pricing, Contact, Login]
   \<and> distinct (map element routeTable)
   \<and> inj_on element (set routeTable)"
  by (simp add: routeTable_eq)

section \<open>Rendering at a path\<close>

lemma render_App: "render m u App = [Some NavBar, dispatch m u routeTable]"
  by (simp add: render_def App_def routeTable_def)

lemma content_App:
  "content m u App = (case dispatch m u routeTable of None \<Rightarrow> [] | Some c \<Rightarrow> [c])"
  by (simp add: content_def App_def routeTable_def)

lemma matching_exact: "matching exact_match u rs = filter (\<lambda>r. path r = u) rs"
  by (simp add: matching_def exact_match_def)

lemma filter_unique:
  assumes "distinct (map f xs)"
    and "\<And>x y. x \<in> set xs \<Longrightarrow> y \<in> set xs \<Longrightarrow> P x \<Longrightarrow> P y \<Longrightarrow> f x = f y"
  shows "length (filter P xs) \<le> 1"
  using assms
proof (induction xs)
  case Nil
  then show ?case by simp
next
  case (Cons x xs)
  from Cons.prems(1) have d: "distinct (map f xs)" and n: "f x \<notin> f ` set xs"
    by simp_all
  show ?case
  proof (cases "P x")
    case True
    have "\<not> P y" if y: "y \<in> set xs" for y
    proof
      assume "P y"
      have "f x = f y"
        by (rule Cons.prems(2)) (use y True \<open>P y\<close> in simp_all)
      then have "f x \<in> f ` set xs"
        using y by (metis imageI)
      with n show False ..
    qed
    then have "filter P xs = []" by (simp add: filter_empty_conv)
    with True show ?thesis by simp
  next
    case False
    have "length (filter P xs) \<le> 1"
      by (rule Cons.IH [OF d]) (rule Cons.prems(2), simp_all)
    with False show ?thesis by simp
  qed
qed

lemma content_le_one: "length (content m u App) \<le> 1"
  by (simp add: content_def App_def split: option.split)

text \<open>
  The model of the library's matcher meets the hypotheses used below: it is exact among
  the five paths, and at no path does it match two different patterns of the table.
\<close>

lemma router_match_exact_on: "exact_on router_match (map path routeTable)"
  by (simp add: exact_on_def paths_eq router_match_def strip_slashes_def to_lower_def)

lemma router_match_trans: "router_match p u \<Longrightarrow> router_match q u \<Longrightarrow> router_match p q"
  by (simp add: router_match_def)

lemma router_match_unambiguous: "unambiguous router_match (map path routeTable) u"
  unfolding unambiguous_def
proof (intro ballI impI)
  fix p q
  assume p: "p \<in> set (map path routeTable)" and q: "q \<in> set (map path routeTable)"
    and pq: "router_match p u \<and> router_match q u"
  from pq have "router_match p q" by (blast intro: router_match_trans)
  with router_match_exact_on p q show "p = q"
    unfolding exact_on_def by blast
qed

text \<open>
  C1. At each of the five defined paths the render of \<^verbatim>\<open>App\<close> is the navigation bar
  followed by that path's page: Home at "/", Features at "/features", Pricing at
  "/pricing", Contact at "/contact" and Login at "/login". This holds for every matcher
  that, among the five paths, matches each pattern to itself and to no other.
\<close>

theorem defined_paths_render:
  assumes "exact_on m (map path routeTable)"
  shows "render m ''/'' App = [Some NavBar, Some Home]
    \<and> render m ''/features'' App = [Some NavBar, Some Features]
    \<and> render m ''/pricing'' App = [Some NavBar, Some Pricing]
    \<and> render m ''/contact'' App = [Some NavBar, Some Contact]
    \<and> render m ''/login'' App = [Some NavBar, Some Login]"
  using assms
  by (simp add: render_App dispatch_def matching_def routeTable_eq exact_on_def)

theorem defined_paths_render_witness:
  "exact_on exact_match (map path routeTable)
   \<and> render exact_match ''/pricing'' App = [Some NavBar, Some Pricing]"
proof -
  have h: "exact_on exact_match (map path routeTable)"
    by (simp add: exact_on_def exact_match_def)
  from defined_paths_render [OF h] h show ?thesis by simp
qed

text \<open>
  At the path "/unknown" no binding matches and the content region holds no page
  component, so "exactly one page component is rendered for every URL" fails there.
\<close>

theorem one_page_counterexample:
  "\<not> (length (matching exact_match ''/unknown'' routeTable) \<le> 1
      \<and> length (content exact_match ''/unknown'' App) = 1)"
  by (simp add: content_App dispatch_def matching_exact routeTable_eq)

text \<open>
  C3, amended. For every URL path at most one binding of the table matches and at most
  one page component is rendered in the content region; no URL renders two or more
  pages. The bound on the rendered pages holds for every matcher. The bound on the
  matching bindings holds for every matcher that matches no two different patterns of
  the table to the path, and rests on the paths of the table being pairwise distinct.
\<close>

theorem at_most_one_page:
  assumes "unambiguous m (map path routeTable) u"
  shows "length (matching m u routeTable) \<le> 1 \<and> length (content m u App) \<le> 1"
proof -
  have "length (filter (\<lambda>r. m (path r) u) routeTable) \<le> 1"
  proof (rule filter_unique [OF paths_distinct])
    fix x y
    assume "x \<in> set routeTable" "y \<in> set routeTable" "m (path x) u" "m (path y) u"
    with assms show "path x = path y"
      unfolding unambiguous_def by (metis imageI set_map)
  qed
  with content_le_one [of m u] show ?thesis by (simp add: matching_def)
qed

theorem at_most_one_page_witness:
  "unambiguous exact_match (map path routeTable) ''/pricing''
   \<and> length (matching exact_match ''/pricing'' routeTable) \<le> 1
   \<and> length (content exact_match ''/pricing'' App) \<le> 1"
proof -
  have h: "unambiguous exact_match (map path routeTable) ''/pricing''"
    by (simp add: unambiguous_def exact_match_def)
  from at_most_one_page [OF h] h show ?thesis by simp
qed

text \<open>
  The path "/features/" is not one of the five defined paths, yet the binding of
  "/features" matches it and Features is rendered: "no binding matches a path outside
  the five" fails there.
\<close>

theorem unlisted_path_counterexample:
  "''/features/'' \<notin> set (map path routeTable)
   \<and> matching router_match ''/features/'' routeTable = [Route ''/features'' Features]
   \<and> render router_match ''/features/'' App = [Some NavBar, Some Features]"
  by (simp add: render_App dispatch_def matching_def routeTable_eq router_match_def
      strip_slashes_def to_lower_def)

text \<open>
  C5, amended. At a path that none of the five patterns "/", "/features", "/pricing",
  "/contact" and "/login" matches, no binding of the table matches: the content region
  is empty, the table having no fallback route, and the render is the navigation bar
  followed by an empty slot. This holds for every matcher.
\<close>

theorem unmatched_renders_nothing:
  assumes "\<forall>p \<in> set [''/'', ''/features'', ''/pricing'', ''/contact'', ''/login'']. \<not> m p u"
  shows "matching m u routeTable = []
    \<and> content m u App = []
    \<and> render m u App = [Some NavBar, None]"
  using assms
  by (simp add: render_App content_App dispatch_def matching_def routeTable_eq)

theorem unmatched_renders_nothing_witness:
  "(\<not> router_match ''/'' ''/unknown'' \<and> \<not> router_match ''/features'' ''/unknown''
    \<and> \<not> router_match ''/pricing'' ''/unknown'' \<and> \<not> router_match ''/contact'' ''/unknown''
    \<and> \<not> router_match ''/login'' ''/unknown'')
   \<and> render router_match ''/unknown'' App = [Some NavBar, None]"
proof -
  have h: "\<forall>p \<in> set [''/'', ''/features'', ''/pricing'', ''/contact'', ''/login''].
      \<not> router_match p ''/unknown''"
    by (simp add: router_match_def strip_slashes_def to_lower_def)
  from unmatched_renders_nothing [of router_match "''/unknown''", OF h] h
  show ?thesis by simp
qed

text \<open>
  C9. The pattern "/" is not a prefix pattern: at the path of any other binding of the
  table it does not match, the content region holds that binding's component alone,
  and Home is not rendered.
\<close>

theorem root_is_not_a_prefix:
  assumes "r \<in> set routeTable" and "path r \<noteq> ''/''"
  shows "\<not> exact_match ''/'' (path r)
    \<and> content exact_match (path r) App = [element r]
    \<and> Home \<notin> set (content exact_match (path r) App)"
  using assms
  by (auto simp: content_App dispatch_def matching_exact routeTable_eq exact_match_def)

theorem root_is_not_a_prefix_witness:
  "Route ''/features'' Features \<in> set routeTable
   \<and> \<not> exact_match ''/'' ''/features''
   \<and> content exact_match ''/features'' App = [Features]"
proof -
  have h: "Route ''/features'' Features \<in> set routeTable"
    by (simp add: routeTable_eq)
  have k: "path (Route ''/features'' Features) \<noteq> ''/''"
    by simp
  from root_is_not_a_prefix [OF h k] h show ?thesis by simp
qed

section \<open>Construction of the route table\<close>




section \<open>Navigation\<close>

lemma kind_reconcile: "map_option kind (reconcile n old new) = new"
  by (induction n old new rule: reconcile.induct) simp_all

lemma shown_mount: "shown (mount m u) = render m u App"
  by (simp add: shown_def mount_def kind_reconcile map_idI)

lemma settled_mount: "settled m (mount m u)"
  by (simp add: settled_def shown_mount) (simp add: mount_def render_App)

lemma settled_navigate:
  assumes "settled m v"
  shows "settled m (navigate m u v)"
proof -
  from assms have t: "tree v = App" and s: "shown v = render m (location v) App"
    and h: "hd (screen v) = Some \<lparr>kind = NavBar, born = 0\<rparr>"
    by (simp_all add: settled_def)
  from s have "length (screen v) = length (render m u App)"
    by (simp add: shown_def render_App flip: length_map [of "map_option kind" "screen v"])
  then obtain a b where scr: "screen v = [a, b]"
    by (cases "screen v"; cases "tl (screen v)") (auto simp: render_App)
  with h have a: "a = Some \<lparr>kind = NavBar, born = 0\<rparr>" by simp
  show ?thesis
    by (simp add: settled_def navigate_def shown_def t scr a render_App kind_reconcile)
qed

lemma settled_run: "settled m v \<Longrightarrow> settled m (run m v us)"
  by (induction us arbitrary: v) (simp_all add: settled_navigate)

lemma settled_reach: "settled m (run m (mount m u) us)"
  by (rule settled_run) (rule settled_mount)

lemma location_navigate: "location (navigate m u v) = u"
  by (simp add: navigate_def)

text \<open>
  C4. Navigation never unmounts or re-creates the navigation bar. The first slot holds
  the instance that the first commit created, after mounting at \<open>p1\<close>, after navigating
  from \<open>p1\<close> to \<open>p2\<close> and after any further sequence of URL changes, and the renders at
  two paths agree in that slot. This holds for all paths, the five defined ones among
  them, and for every matcher.
\<close>

theorem shell_stays_mounted:
  "hd (screen (mount m p1)) = Some \<lparr>kind = NavBar, born = 0\<rparr>
   \<and> hd (screen (navigate m p2 (mount m p1))) = hd (screen (mount m p1))
   \<and> hd (screen (run m (mount m p1) ps)) = Some \<lparr>kind = NavBar, born = 0\<rparr>
   \<and> hd (render m p1 App) = hd (render m p2 App)"
proof -
  have "settled m (mount m p1)" by (rule settled_mount)
  moreover have "settled m (navigate m p2 (mount m p1))"
    by (rule settled_navigate) (rule settled_mount)
  moreover have "settled m (run m (mount m p1) ps)" by (rule settled_reach)
  ultimately show ?thesis by (simp add: settled_def render_App)
qed

text \<open>
  C10. \<^verbatim>\<open>App\<close> takes no argument and holds no state, so what is shown is determined by
  the current URL: two reachable views at the same location show the same output, the
  navigation bar followed by the page dispatched for that location.
\<close>

theorem output_determined_by_url:
  assumes "location (run m (mount m a) as) = location (run m (mount m b) bs)"
  shows "shown (run m (mount m a) as) = shown (run m (mount m b) bs)
    \<and> shown (run m (mount m a) as)
      = [Some NavBar, dispatch m (location (run m (mount m a) as)) routeTable]"
proof -
  have "settled m (run m (mount m a) as)" by (rule settled_reach)
  moreover have "settled m (run m (mount m b) bs)" by (rule settled_reach)
  ultimately show ?thesis using assms by (simp add: settled_def render_App)
qed

theorem output_determined_by_url_witness:
  "location (run exact_match (mount exact_match ''/'') [''/pricing''])
     = location (run exact_match (mount exact_match ''/login'') [''/features'', ''/pricing''])
   \<and> shown (run exact_match (mount exact_match ''/'') [''/pricing''])
     = shown (run exact_match (mount exact_match ''/login'') [''/features'', ''/pricing''])"
proof -
  have h: "location (run exact_match (mount exact_match ''/'') [''/pricing''])
     = location (run exact_match (mount exact_match ''/login'') [''/features'', ''/pricing''])"
    by (simp add: location_navigate)
  from output_determined_by_url [OF h] h show ?thesis by simp
qed

end
